theory Spec2Isabelle
  imports Main "HOL-Library.Sublist"
begin

section \<open>Python values, errors and string primitives\<close>

text \<open>
  The helper module \<^verbatim>\<open>infa3/helper.py\<close> works on Python strings, lists and one
  dictionary. A Python \<^verbatim>\<open>str\<close> is modelled as a \<^typ>\<open>string\<close> whose characters stand
  for the code points 0..255; a dictionary is an association list in insertion order.
  The values of the configuration dictionary are arbitrary Python objects; the model
  has the kinds the comparison \<^verbatim>\<open>value == True\<close> tells apart.
\<close>

datatype pyval = PyStr string | PyBool bool | PyInt int | PyNone

datatype pyerror =
    Exception string
  | ValueError string
  | KeyError string
  | OSError string
  | UnicodeEncodeError string
  | UnicodeDecodeError string

text \<open>Python's \<^verbatim>\<open>==\<close>: \<^verbatim>\<open>bool\<close> is a subclass of \<^verbatim>\<open>int\<close>, so \<^verbatim>\<open>1 == True\<close> holds.\<close>

fun py_eq :: "pyval \<Rightarrow> pyval \<Rightarrow> bool" where
  "py_eq (PyStr s) (PyStr t) = (s = t)"
| "py_eq (PyBool a) (PyBool b) = (a = b)"
| "py_eq (PyInt m) (PyInt n) = (m = n)"
| "py_eq (PyBool a) (PyInt n) = ((if a then 1 else 0) = n)"
| "py_eq (PyInt m) (PyBool b) = (m = (if b then 1 else 0))"
| "py_eq PyNone PyNone = True"
| "py_eq _ _ = False"

text \<open>\<^verbatim>\<open>s in t\<close> on strings: \<open>s\<close> occurs in \<open>t\<close> as a contiguous piece.\<close>

fun py_in :: "string \<Rightarrow> string \<Rightarrow> bool" where
  "py_in s [] = (s = [])"
| "py_in s (c # cs) = (prefix s (c # cs) \<or> py_in s cs)"

text \<open>
  \<^verbatim>\<open>s.strip(chars)\<close> removes from both ends the characters that are members of
  \<open>chars\<close> (a set of characters, not a prefix or suffix). \<^verbatim>\<open>s.strip()\<close> does so
  for the whitespace characters; below code point 256 these are the ones listed.
\<close>

definition py_strip_chars :: "string \<Rightarrow> string \<Rightarrow> string" where
  "py_strip_chars chars s =
     rev (dropWhile (\<lambda>c. c \<in> set chars) (rev (dropWhile (\<lambda>c. c \<in> set chars) s)))"

definition py_whitespace :: string where
  "py_whitespace =
     [CHR 0x09, CHR 0x0A, CHR 0x0B, CHR 0x0C, CHR 0x0D, CHR 0x1C, CHR 0x1D, CHR 0x1E, CHR 0x1F,
      CHR 0x20, CHR 0x85, CHR 0xA0]"

definition py_strip :: "string \<Rightarrow> string" where
  "py_strip s = py_strip_chars py_whitespace s"

text \<open>\<^verbatim>\<open>sep.join(xs)\<close> on a list of strings.\<close>

fun py_join :: "string \<Rightarrow> string list \<Rightarrow> string" where
  "py_join sep [] = []"
| "py_join sep [x] = x"
| "py_join sep (x # y # ys) = x @ sep @ py_join sep (y # ys)"

text \<open>
  \<^verbatim>\<open>s.split(sep)\<close>: the string is cut at the occurrences of \<open>sep\<close> found from left to
  right without overlap; \<open>cur\<close> is the field read so far. An empty separator raises
  \<^verbatim>\<open>ValueError\<close>.
\<close>

function py_split_from :: "string \<Rightarrow> string \<Rightarrow> string \<Rightarrow> string list" where
  "py_split_from sep cur [] = [cur]"
| "py_split_from sep cur (c # cs) =
     (if sep \<noteq> [] \<and> prefix sep (c # cs)
      then cur # py_split_from sep [] (drop (length sep) (c # cs))
      else py_split_from sep (cur @ [c]) cs)"
  by pat_completeness auto
termination
  by (relation "measure (\<lambda>(sep, cur, s). length s)") auto

definition py_split :: "string \<Rightarrow> string \<Rightarrow> pyerror + string list" where
  "py_split s sep =
     (if sep = [] then Inl (ValueError ''empty separator'') else Inr (py_split_from sep [] s))"

section \<open>cmd_prepare\<close>

text \<open>
  The \<^verbatim>\<open>for key, value in params.items()\<close> loop, with the list \<^verbatim>\<open>command\<close> built so
  far as the accumulator. The three branches are the source's \<^verbatim>\<open>if\<close>/\<^verbatim>\<open>elif\<close>/\<^verbatim>\<open>elif\<close>;
  when none applies the iteration adds nothing.
\<close>

fun cmd_prepare_loop ::
  "(string \<times> pyval) list \<Rightarrow> string list \<Rightarrow> string list \<Rightarrow> pyval list \<Rightarrow> pyerror + pyval list" where
  "cmd_prepare_loop [] opts_args opts_flags command = Inr command"
| "cmd_prepare_loop ((key, val) # rest) opts_args opts_flags command =
     (if key \<in> set opts_args then
        cmd_prepare_loop rest opts_args opts_flags (command @ [PyStr (''-'' @ key), val])
      else if key \<in> set opts_flags \<and> py_eq val (PyBool True) then
        cmd_prepare_loop rest opts_args opts_flags (command @ [PyStr (''-'' @ key)])
      else if key \<notin> set (opts_args @ opts_flags) then
        Inl (Exception (''unsupported option: '' @ key))
      else cmd_prepare_loop rest opts_args opts_flags command)"

definition cmd_prepare ::
  "(string \<times> pyval) list \<Rightarrow> string list \<Rightarrow> string list \<Rightarrow> pyerror + pyval list" where
  "cmd_prepare params opts_args opts_flags = cmd_prepare_loop params opts_args opts_flags []"

section \<open>cmd_status\<close>

text \<open>
  \<open>cmd_status\<close> prints and raises; the model returns the text written to standard output
  together with the outcome. \<^verbatim>\<open>print\<close> ends what it writes with a newline. Both
  arguments are lists of strings, as \<open>cmd_execute\<close> takes and returns them.
\<close>

definition cmd_status :: "string list \<Rightarrow> string list \<Rightarrow> string \<times> (pyerror + unit)" where
  "cmd_status command command_output =
     (if \<not> list_ex (\<lambda>line. py_in ''completed successfully'' line) command_output
      then (py_join [CHR 0x0A] command_output @ [CHR 0x0A],
            Inl (Exception (''failed to execute: '' @ py_join '' '' command)))
      else ([], Inr ()))"

section \<open>format_output\<close>

text \<open>
  An element of the result is either a string or the list of fields of a line. The loop
  appends to \<^verbatim>\<open>result\<close>; \<^verbatim>\<open>if item\<close> is the test that the string is not empty.
\<close>

datatype outrow = Scalar string | Fields "string list"

definition ignore_lines :: "string list" where
  "ignore_lines =
     [''Informatica'',
      ''Copyright'',
      ''All Rights Reserved'',
      ''This Software is protected'',
      ''Invoked at'',
      ''Completed at'',
      ''completed successfully'']"

fun format_output_loop :: "string list \<Rightarrow> string \<Rightarrow> outrow list \<Rightarrow> pyerror + outrow list" where
  "format_output_loop [] field_separator result = Inr result"
| "format_output_loop (item # rest) field_separator result =
     (if item \<noteq> [] \<and> \<not> list_ex (\<lambda>s. py_in s item) ignore_lines then
        (if py_in field_separator item then
           (case py_split (py_strip item) field_separator of
              Inl e \<Rightarrow> Inl e
            | Inr fields \<Rightarrow> format_output_loop rest field_separator (result @ [Fields fields]))
         else format_output_loop rest field_separator (result @ [Scalar (py_strip item)]))
      else format_output_loop rest field_separator result)"

definition format_output :: "string list \<Rightarrow> string \<Rightarrow> pyerror + outrow list" where
  "format_output command_output field_separator =
     format_output_loop command_output field_separator []"

section \<open>cmd_execute\<close>

text \<open>
  \<^verbatim>\<open>str(b)\<close> of a \<^verbatim>\<open>bytes\<close> object is its \<^verbatim>\<open>repr\<close>: the letter \<open>b\<close>, a quote, the bytes
  with backslash, the quote, tab, newline and carriage return escaped and every byte
  outside the printable ASCII range written as \<open>\xNN\<close>, and the closing quote. The quote
  is the double quote when the bytes contain a single quote and no double quote.
\<close>

definition hexdigit :: "nat \<Rightarrow> char" where
  "hexdigit n = ''0123456789abcdef'' ! (n mod 16)"

definition repr_byte :: "char \<Rightarrow> char \<Rightarrow> string" where
  "repr_byte quote c =
     (if c = quote \<or> c = CHR 0x5C then [CHR 0x5C, c]
      else if c = CHR 0x09 then [CHR 0x5C, CHR ''t'']
      else if c = CHR 0x0A then [CHR 0x5C, CHR ''n'']
      else if c = CHR 0x0D then [CHR 0x5C, CHR ''r'']
      else if (of_char c :: nat) < 0x20 \<or> 0x7F \<le> (of_char c :: nat)
        then [CHR 0x5C, CHR ''x'', hexdigit (of_char c div 16), hexdigit (of_char c mod 16)]
      else [c])"

definition py_str_bytes :: "string \<Rightarrow> string" where
  "py_str_bytes b =
     (let quote = (if CHR 0x27 \<in> set b \<and> CHR 0x22 \<notin> set b then CHR 0x22 else CHR 0x27)
      in [CHR ''b'', quote] @ concat (map (repr_byte quote) b) @ [quote])"

text \<open>
  The subprocess is outside the program: \<open>popen_communicate\<close> stands for
  \<^verbatim>\<open>subprocess.Popen(command, stdout=PIPE, stderr=PIPE).communicate()\<close> and gives the pair
  of the bytes written to standard output and to standard error, or the error raised
  when the process cannot be started. The separator \<^verbatim>\<open>'\\r\\n'\<close> of the source is the
  four characters backslash, \<open>r\<close>, backslash, \<open>n\<close>.
\<close>

definition cmd_execute ::
  "(string list \<Rightarrow> pyerror + string \<times> string) \<Rightarrow> string list \<Rightarrow> pyerror + string list" where
  "cmd_execute popen_communicate command =
     (case popen_communicate command of
        Inl e \<Rightarrow> Inl e
      | Inr command_output \<Rightarrow>
          py_split (py_strip_chars [CHR ''b'', CHR 0x27] (py_str_bytes (fst command_output)))
                   [CHR 0x5C, CHR ''r'', CHR 0x5C, CHR ''n''])"

section \<open>create_import_control_xml\<close>

text \<open>
  \<^verbatim>\<open>template.format(name=value, ...)\<close> for a template whose replacement fields are plain
  names: \<open>{{\<close> and \<open>}}\<close> stand for one brace, \<open>{name}\<close> is replaced by the keyword
  argument of that name, and the inserted value is not scanned again. Conversions,
  format specifications, attribute and index access inside a field are not modelled.
\<close>

fun py_format_lit :: "string \<Rightarrow> (string \<times> string) list \<Rightarrow> pyerror + string"
  and py_format_field :: "string \<Rightarrow> string \<Rightarrow> (string \<times> string) list \<Rightarrow> pyerror + string" where
  "py_format_lit [] kwargs = Inr []"
| "py_format_lit (c # cs) kwargs =
     (if c = CHR ''{'' then
        (case cs of
           [] \<Rightarrow> Inl (ValueError (''Single '' @ [CHR 0x27, CHR ''{'', CHR 0x27] @ '' encountered in format string''))
         | d # ds \<Rightarrow>
             if d = CHR ''{'' then map_sum id ((#) (CHR ''{'')) (py_format_lit ds kwargs)
             else py_format_field [] cs kwargs)
      else if c = CHR ''}'' then
        (case cs of
           [] \<Rightarrow> Inl (ValueError (''Single '' @ [CHR 0x27, CHR ''}'', CHR 0x27] @ '' encountered in format string''))
         | d # ds \<Rightarrow>
             if d = CHR ''}'' then map_sum id ((#) (CHR ''}'')) (py_format_lit ds kwargs)
             else Inl (ValueError (''Single '' @ [CHR 0x27, CHR ''}'', CHR 0x27] @ '' encountered in format string'')))
      else map_sum id ((#) c) (py_format_lit cs kwargs))"
| "py_format_field name [] kwargs =
     Inl (ValueError (''expected '' @ [CHR 0x27, CHR ''}'', CHR 0x27] @ '' before end of string''))"
| "py_format_field name (c # cs) kwargs =
     (if c = CHR ''}'' then
        (case map_of kwargs name of
           None \<Rightarrow> Inl (KeyError name)
         | Some v \<Rightarrow> map_sum id ((@) v) (py_format_lit cs kwargs))
      else py_format_field (name @ [c]) cs kwargs)"

definition py_format :: "string \<Rightarrow> (string \<times> string) list \<Rightarrow> pyerror + string" where
  "py_format s kwargs = py_format_lit s kwargs"

definition template :: string where
  \<open>template =
''<?xml version="1.0" encoding="ISO-8859-1"?>\<newline><!DOCTYPE IMPORTPARAMS SYSTEM "{dtd}">\<newline><IMPORTPARAMS CHECKIN_AFTER_IMPORT="NO">\<newline><FOLDERMAP SOURCEFOLDERNAME="{src_folder}" SOURCEREPOSITORYNAME="{src_repo}" TARGETFOLDERNAME="{tgt_folder}" TARGETREPOSITORYNAME="{tgt_repo}"/>\<newline><RESOLVECONFLICT>\<newline><TYPEOBJECT OBJECTTYPENAME = "ALL" RESOLUTION="REPLACE"/>\<newline></RESOLVECONFLICT>\<newline></IMPORTPARAMS>''\<close>

text \<open>
  The file is opened in text mode with the defaults of \<^verbatim>\<open>open\<close>. What \<^verbatim>\<open>f.write\<close> is given
  is first rewritten, every line feed becoming the line separator of the platform
  (\<^verbatim>\<open>os.linesep\<close>), and then encoded with the encoding of the locale; a character that the
  encoding does not have raises \<^verbatim>\<open>UnicodeEncodeError\<close>. The platform supplies the line
  separator and the codec: \<open>encode_char\<close> gives the bytes of one character, or nothing,
  and \<open>decode\<close> turns bytes back into text when the file is read.
\<close>

record platform =
  linesep :: string
  encode_char :: "char \<Rightarrow> string option"
  decode :: "string \<Rightarrow> string option"

definition translate_newlines :: "string \<Rightarrow> string \<Rightarrow> string" where
  "translate_newlines nl s = concat (map (\<lambda>c. if c = CHR 0x0A then nl else [c]) s)"

definition py_encode :: "platform \<Rightarrow> string \<Rightarrow> pyerror + string" where
  "py_encode p s =
     (case those (map (encode_char p) s) of
        None \<Rightarrow> Inl (UnicodeEncodeError s)
      | Some bs \<Rightarrow> Inr (concat bs))"

text \<open>
  The file system is the state: the bytes of the files, and which paths can be opened
  for writing (a path that cannot, for lack of permission, of the directory or of space,
  raises \<^verbatim>\<open>OSError\<close>). Opening with mode \<^verbatim>\<open>'w'\<close> empties the file; the text is encoded as a
  whole before any byte is written, so an encoding error leaves the file empty. The
  function returns nothing: the model gives the file system after the call and the outcome.
\<close>

record filesystem =
  contents :: "string \<Rightarrow> string option"
  writable :: "string \<Rightarrow> bool"

definition create_import_control_xml ::
  "platform \<Rightarrow> filesystem \<Rightarrow> string \<Rightarrow> string \<Rightarrow> string \<Rightarrow> string \<Rightarrow> string \<Rightarrow> string
     \<Rightarrow> filesystem \<times> (pyerror + unit)" where
  "create_import_control_xml p fs xml_output src_folder src_repo tgt_folder tgt_repo dtd =
     (case py_format template
             [(''src_folder'', src_folder), (''src_repo'', src_repo),
              (''tgt_folder'', tgt_folder), (''tgt_repo'', tgt_repo), (''dtd'', dtd)] of
        Inl e \<Rightarrow> (fs, Inl e)
      | Inr text \<Rightarrow>
          if \<not> writable fs xml_output then (fs, Inl (OSError xml_output))
          else (case py_encode p (translate_newlines (linesep p) text) of
                  Inl e \<Rightarrow> (fs\<lparr>contents := (contents fs)(xml_output \<mapsto> [])\<rparr>, Inl e)
                | Inr bytes \<Rightarrow> (fs\<lparr>contents := (contents fs)(xml_output \<mapsto> bytes)\<rparr>, Inr ())))"




section \<open>Facts about the string primitives\<close>

lemma py_in_sublist: "py_in s t = sublist s t"
  by (induction t) (simp_all add: sublist_Cons_right)

lemma py_in_append: "py_in s (pre @ s @ post)"
  by (simp add: py_in_sublist)

section \<open>Facts about cmd_prepare\<close>

lemma cmd_prepare_loop_append:
  "cmd_prepare_loop (ps @ qs) a f c =
     (case cmd_prepare_loop ps a f c of Inl e \<Rightarrow> Inl e | Inr c' \<Rightarrow> cmd_prepare_loop qs a f c')"
  by (induction ps a f c rule: cmd_prepare_loop.induct) simp_all

lemma cmd_prepare_loop_all_args:
  "fst ` set params \<subseteq> set a \<Longrightarrow>
   cmd_prepare_loop params a f c = Inr (c @ concat (map (\<lambda>(k, v). [PyStr (''-'' @ k), v]) params))"
  by (induction params a f c rule: cmd_prepare_loop.induct) simp_all

lemma cmd_prepare_loop_first_unsupported:
  "find (\<lambda>k. k \<notin> set a \<and> k \<notin> set f) (map fst params) = Some k \<Longrightarrow>
   cmd_prepare_loop params a f c = Inl (Exception (''unsupported option: '' @ k))"
  by (induction params a f c rule: cmd_prepare_loop.induct) (auto split: if_splits)

text \<open>
  C1. When every key of the configuration is an argument option, \<open>cmd_prepare\<close>
  returns normally, and the token list is \<open>-key\<close>, value for each entry in the
  configuration's iteration order: two tokens for each key.
\<close>

theorem cmd_prepare_all_args:
  assumes "fst ` set params \<subseteq> set opts_args"
  shows "cmd_prepare params opts_args opts_flags =
           Inr (concat (map (\<lambda>(k, v). [PyStr (''-'' @ k), v]) params))
       \<and> (\<forall>toks. cmd_prepare params opts_args opts_flags = Inr toks \<longrightarrow>
            length toks = 2 * length params
          \<and> (\<forall>i < length params.
               toks ! (2 * i) = PyStr (''-'' @ fst (params ! i))
             \<and> toks ! (2 * i + 1) = snd (params ! i)))"
proof -
  let ?emit = "\<lambda>(k, v). [PyStr (''-'' @ k), v :: pyval]"
  have len: "length (concat (map ?emit ps)) = 2 * length ps" for ps
    by (induction ps) auto
  have nth: "i < length ps \<Longrightarrow>
      concat (map ?emit ps) ! (2 * i) = PyStr (''-'' @ fst (ps ! i))
    \<and> concat (map ?emit ps) ! (2 * i + 1) = snd (ps ! i)" for ps i
  proof (induction ps arbitrary: i)
    case Nil
    then show ?case by simp
  next
    case (Cons p ps)
    show ?case
    proof (cases i)
      case 0
      then show ?thesis by (cases p) simp
    next
      case (Suc j)
      with Cons.prems have "j < length ps" by simp
      from Cons.IH [OF this] Suc show ?thesis by (cases p) simp
    qed
  qed
  have res: "cmd_prepare params opts_args opts_flags = Inr (concat (map ?emit params))"
    using cmd_prepare_loop_all_args [OF assms, of opts_flags "[]"]
    by (simp add: cmd_prepare_def)
  show ?thesis
    using res len [of params] nth [of _ params] by simp
qed

theorem cmd_prepare_all_args_witness:
  "cmd_prepare [(''u'', PyStr ''admin''), (''p'', PyInt 7)] [''p'', ''u''] [''v''] =
     Inr [PyStr ''-u'', PyStr ''admin'', PyStr ''-p'', PyInt 7]"
  using cmd_prepare_all_args [of "[(''u'', PyStr ''admin''), (''p'', PyInt 7)]" "[''p'', ''u'']" "[''v'']"]
  by simp

lemma cmd_prepare_loop_acc:
  "cmd_prepare_loop ps a f c =
     (case cmd_prepare_loop ps a f [] of Inl e \<Rightarrow> Inl e | Inr t \<Rightarrow> Inr (c @ t))"
proof (induction ps arbitrary: c)
  case Nil
  show ?case by simp
next
  case (Cons p ps)
  obtain k v where p: "p = (k, v)" by (cases p)
  show ?case
    unfolding p cmd_prepare_loop.simps
    using Cons.IH [of "c @ [PyStr (''-'' @ k), v]"] Cons.IH [of "[PyStr (''-'' @ k), v]"]
          Cons.IH [of "c @ [PyStr (''-'' @ k)]"] Cons.IH [of "[PyStr (''-'' @ k)]"]
          Cons.IH [of c]
    by (simp split: sum.splits)
qed

lemma cmd_prepare_split:
  "cmd_prepare (ps @ p # qs) a f =
     (case cmd_prepare ps a f of
        Inl e \<Rightarrow> Inl e
      | Inr t1 \<Rightarrow> (case cmd_prepare_loop [p] a f [] of
           Inl e \<Rightarrow> Inl e
         | Inr t \<Rightarrow> (case cmd_prepare qs a f of
              Inl e \<Rightarrow> Inl e
            | Inr t2 \<Rightarrow> Inr (t1 @ t @ t2))))"
proof (cases "cmd_prepare_loop ps a f []")
  case (Inl e)
  then show ?thesis
    by (simp add: cmd_prepare_def cmd_prepare_loop_append)
next
  case pre: (Inr t1)
  have whole: "cmd_prepare_loop (ps @ [p] @ qs) a f [] =
      (case cmd_prepare_loop [p] a f t1 of
         Inl e \<Rightarrow> Inl e
       | Inr c \<Rightarrow> cmd_prepare_loop qs a f c)"
    by (simp only: cmd_prepare_loop_append pre sum.case)
  have step: "cmd_prepare_loop [p] a f t1 =
      (case cmd_prepare_loop [p] a f [] of Inl e \<Rightarrow> Inl e | Inr t \<Rightarrow> Inr (t1 @ t))"
    by (rule cmd_prepare_loop_acc)
  show ?thesis
  proof (cases "cmd_prepare_loop [p] a f []")
    case (Inl e)
    with whole step have "cmd_prepare_loop (ps @ [p] @ qs) a f [] = Inl e"
      by (simp only: sum.case)
    with pre Inl show ?thesis
      by (simp add: cmd_prepare_def del: cmd_prepare_loop.simps)
  next
    case mid: (Inr t)
    have rest: "cmd_prepare_loop qs a f (t1 @ t) =
        (case cmd_prepare_loop qs a f [] of Inl e \<Rightarrow> Inl e | Inr t2 \<Rightarrow> Inr ((t1 @ t) @ t2))"
      by (rule cmd_prepare_loop_acc)
    from whole step mid have "cmd_prepare_loop (ps @ [p] @ qs) a f [] =
        cmd_prepare_loop qs a f (t1 @ t)"
      by (simp only: sum.case)
    with rest pre mid show ?thesis
      by (simp add: cmd_prepare_def del: cmd_prepare_loop.simps split: sum.splits)
  qed
qed

lemma cmd_prepare_drop:
  assumes "cmd_prepare_loop [p] a f [] = Inr []"
  shows "cmd_prepare (ps @ p # qs) a f = cmd_prepare (ps @ qs) a f"
proof -
  have "cmd_prepare (ps @ qs) a f =
      (case cmd_prepare ps a f of
         Inl e \<Rightarrow> Inl e
       | Inr t1 \<Rightarrow> (case cmd_prepare qs a f of Inl e \<Rightarrow> Inl e | Inr t2 \<Rightarrow> Inr (t1 @ t2)))"
  proof (cases "cmd_prepare_loop ps a f []")
    case (Inl e)
    then show ?thesis
      by (simp add: cmd_prepare_def cmd_prepare_loop_append)
  next
    case (Inr t1)
    with cmd_prepare_loop_acc [of qs a f t1] show ?thesis
      by (simp add: cmd_prepare_def cmd_prepare_loop_append)
  qed
  with assms show ?thesis
    unfolding cmd_prepare_split by (simp del: cmd_prepare_loop.simps split: sum.splits)
qed

text \<open>
  C2 (as stated) fails: with two unsupported keys the loop raises at the first one, and
  the message does not contain the name of the second.
\<close>

theorem cmd_prepare_unsupported_counterexample:
  "cmd_prepare [(''x'', PyStr ''1''), (''y'', PyStr ''2'')] [''u''] [''v''] =
     Inl (Exception ''unsupported option: x'')
   \<and> ''y'' \<notin> set [''u''] \<and> ''y'' \<notin> set [''v'']
   \<and> \<not> py_in ''y'' ''unsupported option: x''"
  by (simp add: cmd_prepare_def)

text \<open>
  C2 (amended). A configuration that contains a key in neither the argument-option list
  nor the flag-option list makes \<open>cmd_prepare\<close> raise the unsupported-option error, and
  the message is \<open>unsupported option: \<close> followed by the name of the first such key in
  iteration order, so it contains that first key's name.
\<close>

theorem cmd_prepare_unsupported:
  assumes "key \<in> fst ` set params" "key \<notin> set opts_args" "key \<notin> set opts_flags"
  shows "\<exists>k. find (\<lambda>k. k \<notin> set opts_args \<and> k \<notin> set opts_flags) (map fst params) = Some k
           \<and> cmd_prepare params opts_args opts_flags = Inl (Exception (''unsupported option: '' @ k))
           \<and> py_in k (''unsupported option: '' @ k)"
proof -
  let ?bad = "\<lambda>k. k \<notin> set opts_args \<and> k \<notin> set opts_flags"
  from assms have "\<exists>k \<in> set (map fst params). ?bad k" by auto
  then have "find ?bad (map fst params) \<noteq> None"
    by (simp add: find_None_iff)
  then obtain k where k: "find ?bad (map fst params) = Some k" by auto
  have "py_in k (''unsupported option: '' @ k @ [])"
    by (rule py_in_append)
  with k cmd_prepare_loop_first_unsupported [OF k, of "[]"] show ?thesis
    by (simp add: cmd_prepare_def)
qed

theorem cmd_prepare_unsupported_witness:
  "\<exists>k. find (\<lambda>k. k \<notin> set [''u''] \<and> k \<notin> set [''v''])
          (map fst [(''u'', PyStr ''a''), (''x'', PyStr ''1''), (''y'', PyStr ''2'')]) = Some k
     \<and> cmd_prepare [(''u'', PyStr ''a''), (''x'', PyStr ''1''), (''y'', PyStr ''2'')] [''u''] [''v'']
         = Inl (Exception (''unsupported option: '' @ k))
     \<and> py_in k (''unsupported option: '' @ k)"
  using cmd_prepare_unsupported [of "''y''" "[(''u'', PyStr ''a''), (''x'', PyStr ''1''), (''y'', PyStr ''2'')]"
      "[''u'']" "[''v'']"]
  by simp

text \<open>
  C3. The option classification of the specification has two disjoint lists of option
  names. For a configuration key in the flag-option list: with the value \<open>True\<close> the
  key contributes exactly the one token \<open>-key\<close> (no value token), placed between the
  tokens of the entries before it and those of the entries after it; with the value
  \<open>False\<close> it contributes no token.
\<close>

theorem cmd_prepare_flag:
  assumes "set opts_args \<inter> set opts_flags = {}" "key \<in> set opts_flags"
  shows "cmd_prepare (ps @ (key, PyBool True) # qs) opts_args opts_flags =
           (case cmd_prepare ps opts_args opts_flags of
              Inl e \<Rightarrow> Inl e
            | Inr t1 \<Rightarrow> (case cmd_prepare qs opts_args opts_flags of
                 Inl e \<Rightarrow> Inl e
               | Inr t2 \<Rightarrow> Inr (t1 @ [PyStr (''-'' @ key)] @ t2)))
       \<and> cmd_prepare (ps @ (key, PyBool False) # qs) opts_args opts_flags =
           (case cmd_prepare ps opts_args opts_flags of
              Inl e \<Rightarrow> Inl e
            | Inr t1 \<Rightarrow> (case cmd_prepare qs opts_args opts_flags of
                 Inl e \<Rightarrow> Inl e
               | Inr t2 \<Rightarrow> Inr (t1 @ t2)))"
proof -
  from assms have notarg: "key \<notin> set opts_args" by blast
  have t: "cmd_prepare_loop [(key, PyBool True)] opts_args opts_flags [] = Inr [PyStr (''-'' @ key)]"
    using assms(2) notarg by simp
  have f: "cmd_prepare_loop [(key, PyBool False)] opts_args opts_flags [] = Inr []"
    using assms(2) notarg by simp
  show ?thesis
    unfolding cmd_prepare_split t f by (simp split: sum.splits)
qed

theorem cmd_prepare_flag_witness:
  "set [''u'', ''p''] \<inter> set [''v''] = {}
   \<and> cmd_prepare ([(''u'', PyStr ''a'')] @ (''v'', PyBool True) # [(''p'', PyStr ''b'')]) [''u'', ''p''] [''v'']
     = Inr [PyStr ''-u'', PyStr ''a'', PyStr ''-v'', PyStr ''-p'', PyStr ''b'']
   \<and> cmd_prepare ([(''u'', PyStr ''a'')] @ (''v'', PyBool False) # [(''p'', PyStr ''b'')]) [''u'', ''p''] [''v'']
     = Inr [PyStr ''-u'', PyStr ''a'', PyStr ''-p'', PyStr ''b'']"
proof -
  have 1: "cmd_prepare [(''u'', PyStr ''a'')] [''u'', ''p''] [''v''] = Inr [PyStr ''-u'', PyStr ''a'']"
    by (simp add: cmd_prepare_def)
  have 2: "cmd_prepare [(''p'', PyStr ''b'')] [''u'', ''p''] [''v''] = Inr [PyStr ''-p'', PyStr ''b'']"
    by (simp add: cmd_prepare_def)
  have d: "set [''u'', ''p''] \<inter> set [''v''] = {}" by simp
  have k: "''v'' \<in> set [''v'']" by simp
  show ?thesis
    using cmd_prepare_flag [OF d k, of "[(''u'', PyStr ''a'')]" "[(''p'', PyStr ''b'')]"]
    by (simp add: 1 2)
qed

text \<open>
  C10. A configuration key that is in the flag-option list and not in the
  argument-option list, and whose value does not compare equal to \<open>True\<close> (for
  instance \<open>None\<close>, the string \<open>true\<close> or the empty string), adds no token and raises no
  error: the iteration for it leaves the command unchanged, and the result of
  \<open>cmd_prepare\<close> is the one for the configuration without that key.
\<close>

theorem cmd_prepare_flag_dropped:
  assumes "key \<in> set opts_flags" "key \<notin> set opts_args" "\<not> py_eq v (PyBool True)"
  shows "cmd_prepare_loop ((key, v) # rest) opts_args opts_flags command =
           cmd_prepare_loop rest opts_args opts_flags command
       \<and> cmd_prepare (ps @ (key, v) # qs) opts_args opts_flags =
           cmd_prepare (ps @ qs) opts_args opts_flags"
proof -
  have "cmd_prepare_loop [(key, v)] opts_args opts_flags [] = Inr []"
    using assms by simp
  then have "cmd_prepare (ps @ (key, v) # qs) opts_args opts_flags =
      cmd_prepare (ps @ qs) opts_args opts_flags"
    by (rule cmd_prepare_drop)
  then show ?thesis using assms by simp
qed

theorem cmd_prepare_flag_dropped_witness:
  "cmd_prepare ([(''u'', PyStr ''a'')] @ (''v'', PyNone) # [(''p'', PyStr ''b'')]) [''u'', ''p''] [''v'']
     = Inr [PyStr ''-u'', PyStr ''a'', PyStr ''-p'', PyStr ''b'']
   \<and> cmd_prepare ([] @ (''v'', PyStr ''true'') # []) [''u'', ''p''] [''v''] = Inr []
   \<and> cmd_prepare ([] @ (''v'', PyStr []) # []) [''u'', ''p''] [''v''] = Inr []"
proof -
  have 1: "cmd_prepare ([(''u'', PyStr ''a'')] @ [(''p'', PyStr ''b'')]) [''u'', ''p''] [''v'']
      = Inr [PyStr ''-u'', PyStr ''a'', PyStr ''-p'', PyStr ''b'']"
    by (simp add: cmd_prepare_def)
  have 2: "cmd_prepare ([] @ []) [''u'', ''p''] [''v''] = Inr []"
    by (simp add: cmd_prepare_def)
  show ?thesis
    using cmd_prepare_flag_dropped [of "''v''" "[''v'']" "[''u'', ''p'']" PyNone
            "[]" "[]" "[(''u'', PyStr ''a'')]" "[(''p'', PyStr ''b'')]"]
          cmd_prepare_flag_dropped [of "''v''" "[''v'']" "[''u'', ''p'']" "PyStr ''true''"
            "[]" "[]" "[]" "[]"]
          cmd_prepare_flag_dropped [of "''v''" "[''v'']" "[''u'', ''p'']" "PyStr []"
            "[]" "[]" "[]" "[]"]
    by (simp only: 1 2) simp
qed

section \<open>Facts about cmd_status and format_output\<close>

lemma py_in_refl: "py_in s s"
  by (simp add: py_in_sublist)

lemma py_in_prepend: "py_in s t \<Longrightarrow> py_in s (u @ t)"
  unfolding py_in_sublist sublist_def
proof -
  assume "\<exists>ps ss. t = ps @ s @ ss"
  then obtain ps ss where "t = ps @ s @ ss" by blast
  then have "u @ t = (u @ ps) @ s @ ss" by simp
  then show "\<exists>ps ss. u @ t = ps @ s @ ss" by blast
qed

lemma py_in_extend: "py_in s t \<Longrightarrow> py_in s (t @ u)"
  unfolding py_in_sublist sublist_def
proof -
  assume "\<exists>ps ss. t = ps @ s @ ss"
  then obtain ps ss where "t = ps @ s @ ss" by blast
  then have "t @ u = ps @ s @ (ss @ u)" by simp
  then show "\<exists>ps ss. t @ u = ps @ s @ ss" by blast
qed

lemma py_in_join:
  "line \<in> set xs \<Longrightarrow> py_in line (py_join sep xs)"
proof (induction sep xs rule: py_join.induct)
  case (1 sep)
  then show ?case by simp
next
  case (2 sep x)
  then show ?case by (simp add: py_in_refl)
next
  case (3 sep x y ys)
  show ?case
  proof (cases "line = x")
    case True
    have "py_in x ([] @ x @ (sep @ py_join sep (y # ys)))" by (rule py_in_append)
    with True show ?thesis by simp
  next
    case False
    with 3 have "py_in line (py_join sep (y # ys))" by simp
    then have "py_in line ((x @ sep) @ py_join sep (y # ys))"
      by (rule py_in_prepend)
    then show ?thesis by simp
  qed
qed

text \<open>
  The model of \<^verbatim>\<open>split\<close> is checked against \<^verbatim>\<open>join\<close>: joining the fields with the
  separator gives the string back.
\<close>

lemma py_split_from_nonempty: "py_split_from sep cur s \<noteq> []"
  by (induction sep cur s rule: py_split_from.induct) simp_all

lemma py_split_from_join:
  "sep \<noteq> [] \<Longrightarrow> py_join sep (py_split_from sep cur s) = cur @ s"
proof (induction sep cur s rule: py_split_from.induct)
  case (1 sep cur)
  then show ?case by simp
next
  case (2 sep cur c cs)
  show ?case
  proof (cases "prefix sep (c # cs)")
    case True
    then obtain r where r: "c # cs = sep @ r" by (auto simp: prefix_def)
    then have d: "drop (length sep) (c # cs) = r" by simp
    from 2 True
    have ih: "py_join sep (py_split_from sep [] (drop (length sep) (c # cs))) =
        drop (length sep) (c # cs)"
      by simp
    obtain y ys where ys: "py_split_from sep [] r = y # ys"
      using py_split_from_nonempty [of sep "[]" r] by (cases "py_split_from sep [] r") auto
    have "py_split_from sep cur (c # cs) = cur # py_split_from sep [] r"
      using True 2(3) d by simp
    then have "py_join sep (py_split_from sep cur (c # cs)) = cur @ sep @ py_join sep (y # ys)"
      by (simp add: ys)
    also have "py_join sep (y # ys) = r"
      using ih ys d by simp
    finally show ?thesis by (simp add: r)
  next
    case False
    with 2 show ?thesis by simp
  qed
qed

lemma format_output_loop_append:
  "format_output_loop (xs @ ys) sep r =
     (case format_output_loop xs sep r of Inl e \<Rightarrow> Inl e | Inr r' \<Rightarrow> format_output_loop ys sep r')"
  by (induction xs sep r rule: format_output_loop.induct) (simp_all split: sum.splits)

lemma format_output_loop_nonempty_sep:
  "sep \<noteq> [] \<Longrightarrow>
   format_output_loop lines sep r =
     Inr (r @ map (\<lambda>item. if py_in sep item then Fields (py_split_from sep [] (py_strip item))
                          else Scalar (py_strip item))
               (filter (\<lambda>item. item \<noteq> [] \<and> \<not> list_ex (\<lambda>s. py_in s item) ignore_lines) lines))"
  by (induction lines sep r rule: format_output_loop.induct) (simp_all add: py_split_def)

text \<open>
  C4. \<open>cmd_status\<close> returns without printing and without raising exactly when some
  output line contains \<open>completed successfully\<close>. When no line does, it prints the output
  lines joined by newlines (so every line occurs in the printed text) and raises an
  exception whose message contains the command tokens joined by single spaces.
\<close>

theorem cmd_status_result:
  "(cmd_status command command_output = ([], Inr ())) =
      (\<exists>line \<in> set command_output. py_in ''completed successfully'' line)
   \<and> ((\<forall>line \<in> set command_output. \<not> py_in ''completed successfully'' line) \<longrightarrow>
        (\<exists>printed msg.
            cmd_status command command_output = (printed, Inl (Exception msg))
          \<and> printed = py_join [CHR 0x0A] command_output @ [CHR 0x0A]
          \<and> (\<forall>line \<in> set command_output. py_in line printed)
          \<and> py_in (py_join '' '' command) msg))"
proof -
  have printed: "py_in line (py_join [CHR 0x0A] command_output @ [CHR 0x0A])"
    if "line \<in> set command_output" for line
    using py_in_join [OF that] by (rule py_in_extend)
  have msg: "py_in (py_join '' '' command) (''failed to execute: '' @ py_join '' '' command @ [])"
    by (rule py_in_append)
  show ?thesis
    using printed msg by (auto simp: cmd_status_def list_ex_iff)
qed

theorem cmd_status_result_witness:
  "py_in ''completed successfully'' ''Process completed successfully.''
   \<and> cmd_status [''pmrep'', ''connect''] [''Invoked'', ''Process completed successfully.''] = ([], Inr ())
   \<and> cmd_status [''pmrep'', ''connect''] [''Invoked'', ''Failed.''] =
       (''Invoked\<newline>Failed.\<newline>'', Inl (Exception ''failed to execute: pmrep connect''))"
  using cmd_status_result [of "[''pmrep'', ''connect'']" "[''Invoked'', ''Process completed successfully.'']"]
        cmd_status_result [of "[''pmrep'', ''connect'']" "[''Invoked'', ''Failed.'']"]
  by (simp add: cmd_status_def)

text \<open>
  C5 (as stated) fails for a line of whitespace only: it is not empty, so it passes the
  test \<^verbatim>\<open>if item\<close>, and its trimmed form, the empty string, is appended to the result.
\<close>

theorem format_output_blank_counterexample:
  "set ''   '' \<subseteq> set py_whitespace
   \<and> format_output [''   ''] ''|'' = Inr [Scalar []]
   \<and> format_output [] ''|'' = Inr []"
  by (simp add: format_output_def ignore_lines_def py_strip_def py_strip_chars_def py_whitespace_def)

text \<open>
  C5 (amended). \<open>format_output\<close> drops every line that is the empty string and every
  line that contains one of the boilerplate substrings \<open>Informatica\<close>, \<open>Copyright\<close>,
  \<open>All Rights Reserved\<close>, \<open>This Software is protected\<close>, \<open>Invoked at\<close>, \<open>Completed at\<close>,
  \<open>completed successfully\<close>: such a line contributes nothing, the outcome is the one for
  the input without that line.
\<close>

theorem format_output_drops:
  assumes "item = []
         \<or> py_in ''Informatica'' item
         \<or> py_in ''Copyright'' item
         \<or> py_in ''All Rights Reserved'' item
         \<or> py_in ''This Software is protected'' item
         \<or> py_in ''Invoked at'' item
         \<or> py_in ''Completed at'' item
         \<or> py_in ''completed successfully'' item"
  shows "format_output (before @ item # after) field_separator =
         format_output (before @ after) field_separator"
proof -
  have "format_output_loop (item # after) field_separator r =
        format_output_loop after field_separator r" for r
    using assms by (auto simp: ignore_lines_def)
  then show ?thesis
    by (simp only: format_output_def format_output_loop_append)
qed

theorem format_output_drops_witness:
  "py_in ''Copyright'' ''Copyright (c) Informatica''
   \<and> format_output ([''a''] @ ''Copyright (c) Informatica'' # [''b'']) ''|'' = Inr [Scalar ''a'', Scalar ''b'']
   \<and> format_output ([''a''] @ [] # [''b'']) ''|'' = Inr [Scalar ''a'', Scalar ''b'']"
proof -
  have 1: "format_output ([''a''] @ [''b'']) ''|'' = Inr [Scalar ''a'', Scalar ''b'']"
    by (simp add: format_output_def ignore_lines_def py_strip_def py_strip_chars_def py_whitespace_def)
  show ?thesis
    using format_output_drops [of "''Copyright (c) Informatica''" "[''a'']" "[''b'']" "''|''"]
          format_output_drops [of "[]" "[''a'']" "[''b'']" "''|''"]
    by (simp only: 1) simp
qed

text \<open>
  C6 (as stated) fails for the empty separator: the empty string occurs in every line,
  and \<^verbatim>\<open>split\<close> raises \<^verbatim>\<open>ValueError\<close> on it, so no field list is produced.
\<close>

theorem format_output_split_counterexample:
  "py_in [] ''a'' \<and> format_output [''a''] [] = Inl (ValueError ''empty separator'')"
  by (simp add: format_output_def ignore_lines_def py_split_def)

text \<open>
  C6 (amended). For a separator that is not the empty string, \<open>format_output\<close> returns
  normally, with one element for each surviving line (a line that is not empty and
  contains no boilerplate substring), in the order of the input: when the separator
  occurs in the line, the fields of the trimmed line split at the separator; otherwise
  the trimmed line as a single string.
\<close>

theorem format_output_rows:
  assumes "field_separator \<noteq> []"
  shows "format_output command_output field_separator =
     Inr (map (\<lambda>item. if py_in field_separator item
                       then Fields (py_split_from field_separator [] (py_strip item))
                       else Scalar (py_strip item))
              (filter (\<lambda>item. item \<noteq> [] \<and> \<not> list_ex (\<lambda>s. py_in s item) ignore_lines)
                      command_output))
   \<and> (\<forall>item. py_split (py_strip item) field_separator =
                Inr (py_split_from field_separator [] (py_strip item))
              \<and> py_join field_separator (py_split_from field_separator [] (py_strip item)) =
                py_strip item)"
  using assms format_output_loop_nonempty_sep [OF assms, of command_output "[]"]
  by (simp add: format_output_def py_split_def py_split_from_join)

theorem format_output_rows_witness:
  "format_output [''Completed at 10:05'', '' n1 ; n2 '', '''', '' plain ''] '';'' =
     Inr [Fields [''n1 '', '' n2''], Scalar ''plain'']"
  using format_output_rows [of "'';''" "[''Completed at 10:05'', '' n1 ; n2 '', '''', '' plain '']"]
  by (simp add: ignore_lines_def py_strip_def py_strip_chars_def py_whitespace_def)

text \<open>
  C7. The example of the specification: the banner line, the invocation line and the
  success line are dropped, \<open>A|B|C\<close> is split into three fields and the padded line is
  trimmed.
\<close>

theorem format_output_example:
  "format_output
     [''Informatica banner'', ''Invoked at 10:00'', ''A|B|C'', ''  x  '', ''completed successfully'']
     ''|''
   = Inr [Fields [''A'', ''B'', ''C''], Scalar ''x'']"
  by (simp add: format_output_def ignore_lines_def py_split_def py_strip_def py_strip_chars_def
      py_whitespace_def)

section \<open>Facts about cmd_execute and create_import_control_xml\<close>

text \<open>
  On output made of ordinary lines that end with carriage return and line feed, and that
  do not begin or end with a character that \<^verbatim>\<open>strip("b'")\<close> removes, \<open>cmd_execute\<close> returns
  the lines; standard error does not reach the result.
\<close>

lemma cmd_execute_plain_lines:
  "cmd_execute (\<lambda>command. Inr (''line one'' @ [CHR 0x0D, CHR 0x0A] @ ''line two'' @ [CHR 0x0D, CHR 0x0A], err))
     [''pmrep'', ''run'']
   = Inr [''line one'', ''line two'', []]"
  by (simp add: cmd_execute_def py_str_bytes_def repr_byte_def py_strip_chars_def py_split_def
      Let_def)

text \<open>
  The same holds for every output made of lines of printable ASCII characters without
  backslash and single quote, joined by carriage return and line feed, whose first line
  does not begin and whose last line does not end with \<open>b\<close>: there the result of
  \<open>cmd_execute\<close> is the list of lines, which is also the output cut at carriage return,
  line feed.
\<close>

lemma py_split_from_skip:
  "s0 \<notin> set l \<Longrightarrow>
   py_split_from (s0 # srest) cur (l @ rest) = py_split_from (s0 # srest) (cur @ l) rest"
  by (induction l arbitrary: cur) auto

lemma py_split_from_sep:
  "sep \<noteq> [] \<Longrightarrow> py_split_from sep cur (sep @ rest) = cur # py_split_from sep [] rest"
  by (cases sep) auto

lemma py_split_from_of_join:
  "\<forall>x \<in> set (l # ls). s0 \<notin> set x \<Longrightarrow>
   py_split_from (s0 # srest) cur (py_join (s0 # srest) (l # ls)) = (cur @ l) # ls"
proof (induction ls arbitrary: l cur)
  case Nil
  then have "s0 \<notin> set l" by simp
  from py_split_from_skip [OF this, of srest cur "[]"] show ?case by simp
next
  case (Cons l2 ls2)
  then have l: "s0 \<notin> set l" and rest: "\<forall>x \<in> set (l2 # ls2). s0 \<notin> set x" by simp_all
  have "py_split_from (s0 # srest) cur (py_join (s0 # srest) (l # l2 # ls2)) =
        py_split_from (s0 # srest) cur (l @ ((s0 # srest) @ py_join (s0 # srest) (l2 # ls2)))"
    by simp
  also have "\<dots> = py_split_from (s0 # srest) (cur @ l) ((s0 # srest) @ py_join (s0 # srest) (l2 # ls2))"
    by (rule py_split_from_skip [OF l])
  also have "\<dots> = (cur @ l) # py_split_from (s0 # srest) [] (py_join (s0 # srest) (l2 # ls2))"
    by (rule py_split_from_sep) simp
  also have "py_split_from (s0 # srest) [] (py_join (s0 # srest) (l2 # ls2)) = ([] @ l2) # ls2"
    by (rule Cons.IH [OF rest])
  finally show ?case by simp
qed

lemma dropWhile_all_prefix:
  "\<forall>c \<in> set ys. P c \<Longrightarrow> dropWhile P (ys @ zs) = dropWhile P zs"
  by (induction ys) simp_all

lemma py_strip_chars_wrapper:
  assumes "x = [] \<or> (hd x \<notin> set chars \<and> last x \<notin> set chars)"
    and "set pre \<subseteq> set chars" "set post \<subseteq> set chars"
  shows "py_strip_chars chars (pre @ x @ post) = x"
proof (cases "x = []")
  case True
  have "\<forall>c \<in> set (pre @ post). c \<in> set chars"
    using assms(2,3) by auto
  then have d0: "dropWhile (\<lambda>c. c \<in> set chars) (pre @ post) = []"
    by (simp only: dropWhile_eq_Nil_conv)
  show ?thesis
    unfolding py_strip_chars_def True append_Nil d0 by simp
next
  case False
  with assms(1) have h: "hd x \<notin> set chars" and l: "last x \<notin> set chars" by simp_all
  from False obtain a as where x: "x = a # as" by (cases x) auto
  with h have a: "a \<notin> set chars" by simp
  have "\<forall>c \<in> set pre. c \<in> set chars" using assms(2) by auto
  then have "dropWhile (\<lambda>c. c \<in> set chars) (pre @ x @ post) =
      dropWhile (\<lambda>c. c \<in> set chars) (x @ post)"
    by (rule dropWhile_all_prefix)
  also have "\<dots> = x @ post" using a x by simp
  finally have 1: "dropWhile (\<lambda>c. c \<in> set chars) (pre @ x @ post) = x @ post" .
  from False obtain bs b where xr: "x = bs @ [b]" by (cases x rule: rev_cases) auto
  with l have b: "b \<notin> set chars" by simp
  have "\<forall>c \<in> set (rev post). c \<in> set chars" using assms(3) by auto
  then have "dropWhile (\<lambda>c. c \<in> set chars) (rev post @ rev x) =
      dropWhile (\<lambda>c. c \<in> set chars) (rev x)"
    by (rule dropWhile_all_prefix)
  also have "\<dots> = rev x" using b xr by simp
  finally have 2: "dropWhile (\<lambda>c. c \<in> set chars) (rev post @ rev x) = rev x" .
  show ?thesis
    unfolding py_strip_chars_def 1 by (simp add: 2)
qed

lemma set_py_join: "set (py_join sep xs) \<subseteq> set sep \<union> \<Union> (set ` set xs)"
  by (induction sep xs rule: py_join.induct) auto

lemma repr_plain_line:
  assumes "\<forall>c \<in> set l. (0x20::nat) \<le> of_char c \<and> (of_char c :: nat) < 0x7F
              \<and> c \<noteq> CHR 0x5C \<and> c \<noteq> CHR 0x27"
  shows "concat (map (repr_byte (CHR 0x27)) l) = l"
  using assms
proof (induction l)
  case Nil
  show ?case by simp
next
  case (Cons c l)
  then have c: "(0x20::nat) \<le> of_char c" "(of_char c :: nat) < 0x7F" "c \<noteq> CHR 0x5C" "c \<noteq> CHR 0x27"
    by simp_all
  have "c \<noteq> CHR 0x09" "c \<noteq> CHR 0x0A" "c \<noteq> CHR 0x0D"
    using c(1) by auto
  with c have "repr_byte (CHR 0x27) c = [c]"
    by (simp add: repr_byte_def)
  with Cons show ?case by simp
qed

lemma repr_plain_lines:
  assumes "\<forall>l \<in> set ls. \<forall>c \<in> set l. (0x20::nat) \<le> of_char c \<and> (of_char c :: nat) < 0x7F
              \<and> c \<noteq> CHR 0x5C \<and> c \<noteq> CHR 0x27"
  shows "concat (map (repr_byte (CHR 0x27)) (py_join [CHR 0x0D, CHR 0x0A] ls)) =
         py_join [CHR 0x5C, CHR ''r'', CHR 0x5C, CHR ''n''] ls"
  using assms
proof (induction "[CHR 0x0D, CHR 0x0A]" ls rule: py_join.induct)
  case 1
  show ?case by simp
next
  case (2 x)
  then show ?case by (simp add: repr_plain_line)
next
  case (3 x y ys)
  then have "concat (map (repr_byte (CHR 0x27)) x) = x"
    by (intro repr_plain_line) simp
  moreover have "concat (map (repr_byte (CHR 0x27)) [CHR 0x0D, CHR 0x0A]) =
      [CHR 0x5C, CHR ''r'', CHR 0x5C, CHR ''n'']"
    by (simp add: repr_byte_def)
  ultimately show ?case using 3 by simp
qed


lemma py_join_hd:
  assumes "ls \<noteq> []" "hd ls = [] \<or> hd (hd ls) \<notin> S" "sep \<noteq> []" "hd sep \<notin> S"
  shows "py_join sep ls = [] \<or> hd (py_join sep ls) \<notin> S"
proof (cases ls)
  case Nil
  with assms(1) show ?thesis by simp
next
  case (Cons x xs)
  show ?thesis
  proof (cases xs)
    case Nil
    with Cons assms(2) show ?thesis by simp
  next
    case (Cons y ys)
    with \<open>ls = x # xs\<close> assms(2,3,4) show ?thesis
      by (cases x; cases sep) auto
  qed
qed

lemma py_join_last:
  assumes "ls \<noteq> []" "last ls = [] \<or> last (last ls) \<notin> S" "sep \<noteq> []" "last sep \<notin> S"
  shows "py_join sep ls = [] \<or> last (py_join sep ls) \<notin> S"
  using assms
proof (induction sep ls rule: py_join.induct)
  case (1 sep)
  then show ?case by simp
next
  case (2 sep x)
  then show ?case by simp
next
  case (3 sep x y ys)
  then have "py_join sep (y # ys) = [] \<or> last (py_join sep (y # ys)) \<notin> S" by simp
  with 3(4,5) show ?case by (auto simp: last_append)
qed

lemma cmd_execute_plain_output:
  assumes plain: "\<forall>l \<in> set ls. \<forall>c \<in> set l. (0x20::nat) \<le> of_char c \<and> (of_char c :: nat) < 0x7F
              \<and> c \<noteq> CHR 0x5C \<and> c \<noteq> CHR 0x27"
    and nonempty: "ls \<noteq> []"
    and first: "hd ls = [] \<or> hd (hd ls) \<noteq> CHR ''b''"
    and final: "last ls = [] \<or> last (last ls) \<noteq> CHR ''b''"
  shows "cmd_execute (\<lambda>command. Inr (py_join [CHR 0x0D, CHR 0x0A] ls, err)) command = Inr ls"
    and "py_split (py_join [CHR 0x0D, CHR 0x0A] ls) [CHR 0x0D, CHR 0x0A] = Inr ls"
proof -
  let ?crlf = "[CHR 0x0D, CHR 0x0A]"
  let ?esc = "[CHR 0x5C, CHR ''r'', CHR 0x5C, CHR ''n'']"
  let ?S = "set [CHR ''b'', CHR 0x27]"
  obtain l ls' where ls: "ls = l # ls'" using nonempty by (cases ls) auto
  have noq: "\<forall>x \<in> set ls. CHR 0x27 \<notin> set x"
    using plain by blast
  have nobs: "\<forall>x \<in> set ls. CHR 0x5C \<notin> set x"
    using plain by blast
  have nocr: "\<forall>x \<in> set ls. CHR 0x0D \<notin> set x"
  proof (intro ballI notI)
    fix x assume "x \<in> set ls" "CHR 0x0D \<in> set x"
    with plain have "(0x20::nat) \<le> of_char (CHR 0x0D)" by blast
    then show False by simp
  qed
  have "set (py_join ?crlf ls) \<subseteq> set ?crlf \<union> \<Union> (set ` set ls)"
    by (rule set_py_join)
  with noq have noquote: "CHR 0x27 \<notin> set (py_join ?crlf ls)"
    by auto
  have "py_str_bytes (py_join ?crlf ls) =
      [CHR ''b'', CHR 0x27] @ concat (map (repr_byte (CHR 0x27)) (py_join ?crlf ls)) @ [CHR 0x27]"
    using noquote by (simp add: py_str_bytes_def Let_def)
  then have repr: "py_str_bytes (py_join ?crlf ls) = [CHR ''b'', CHR 0x27] @ py_join ?esc ls @ [CHR 0x27]"
    by (simp only: repr_plain_lines [OF plain])
  have h0: "hd ls = [] \<or> hd (hd ls) \<notin> ?S"
  proof (cases "hd ls = []")
    case True
    then show ?thesis by simp
  next
    case False
    then have "hd (hd ls) \<in> set (hd ls)" by simp
    moreover have "hd ls \<in> set ls" using nonempty by simp
    ultimately have "hd (hd ls) \<noteq> CHR 0x27" using noq by metis
    with first False show ?thesis by simp
  qed
  have h: "py_join ?esc ls = [] \<or> hd (py_join ?esc ls) \<notin> ?S"
    by (rule py_join_hd [OF nonempty h0]) simp_all
  have t0: "last ls = [] \<or> last (last ls) \<notin> ?S"
  proof (cases "last ls = []")
    case True
    then show ?thesis by simp
  next
    case False
    then have "last (last ls) \<in> set (last ls)" by simp
    moreover have "last ls \<in> set ls" using nonempty by simp
    ultimately have "last (last ls) \<noteq> CHR 0x27" using noq by metis
    with final False show ?thesis by simp
  qed
  have t: "py_join ?esc ls = [] \<or> last (py_join ?esc ls) \<notin> ?S"
    by (rule py_join_last [OF nonempty t0]) simp_all
  have strip: "py_strip_chars [CHR ''b'', CHR 0x27] ([CHR ''b'', CHR 0x27] @ py_join ?esc ls @ [CHR 0x27]) =
      py_join ?esc ls"
  proof (rule py_strip_chars_wrapper)
    show "py_join ?esc ls = [] \<or> hd (py_join ?esc ls) \<notin> ?S \<and> last (py_join ?esc ls) \<notin> ?S"
      using h t by blast
  qed simp_all
  have "\<forall>x \<in> set (l # ls'). CHR 0x5C \<notin> set x"
    using nobs unfolding ls .
  then have split: "py_split_from ?esc [] (py_join ?esc (l # ls')) = ([] @ l) # ls'"
    by (rule py_split_from_of_join)
  have "cmd_execute (\<lambda>command. Inr (py_join ?crlf ls, err)) command =
      py_split (py_join ?esc ls) ?esc"
    unfolding cmd_execute_def by (simp only: sum.case fst_conv repr strip)
  also have "\<dots> = Inr (py_split_from ?esc [] (py_join ?esc ls))"
    by (simp add: py_split_def)
  also have "py_split_from ?esc [] (py_join ?esc ls) = ls"
    unfolding ls split by simp
  finally show "cmd_execute (\<lambda>command. Inr (py_join ?crlf ls, err)) command = Inr ls" .
  have "\<forall>x \<in> set (l # ls'). CHR 0x0D \<notin> set x"
    using nocr unfolding ls .
  then have "py_split_from ?crlf [] (py_join ?crlf (l # ls')) = ([] @ l) # ls'"
    by (rule py_split_from_of_join)
  then have "py_split_from ?crlf [] (py_join ?crlf ls) = ls"
    unfolding ls by simp
  then show "py_split (py_join ?crlf ls) ?crlf = Inr ls"
    by (simp add: py_split_def)
qed

lemma cmd_execute_popen_error:
  "cmd_execute (\<lambda>command. Inl e) command = Inl e"
  by (simp add: cmd_execute_def)

lemma py_format_template:
  \<open>py_format template
     [(''src_folder'', src_folder), (''src_repo'', src_repo),
      (''tgt_folder'', tgt_folder), (''tgt_repo'', tgt_repo), (''dtd'', dtd)] =
   Inr (''<?xml version="1.0" encoding="ISO-8859-1"?>\<newline><!DOCTYPE IMPORTPARAMS SYSTEM "'' @ dtd @
        ''">\<newline><IMPORTPARAMS CHECKIN_AFTER_IMPORT="NO">\<newline><FOLDERMAP SOURCEFOLDERNAME="'' @ src_folder @
        ''" SOURCEREPOSITORYNAME="'' @ src_repo @
        ''" TARGETFOLDERNAME="'' @ tgt_folder @
        ''" TARGETREPOSITORYNAME="'' @ tgt_repo @
        ''"/>\<newline><RESOLVECONFLICT>\<newline><TYPEOBJECT OBJECTTYPENAME = "ALL" RESOLUTION="REPLACE"/>\<newline></RESOLVECONFLICT>\<newline></IMPORTPARAMS>'')\<close>
  by (simp add: py_format_def template_def)

















lemma create_import_control_xml_not_writable:
  "\<not> writable fs xml_output \<Longrightarrow>
   create_import_control_xml p fs xml_output src_folder src_repo tgt_folder tgt_repo dtd =
     (fs, Inl (OSError xml_output))"
  by (simp add: create_import_control_xml_def py_format_template)

text \<open>
  C9. The claim is that the result is standard output cut at the two characters carriage
  return, line feed. The code cuts the \<^verbatim>\<open>repr\<close> of the bytes after \<^verbatim>\<open>strip("b'")\<close>, which
  removes every leading and trailing \<open>b\<close> and quote, also those of the output itself:
  for the output \<open>backup done\<close> followed by carriage return and line feed the first
  element returned is \<open>ackup done\<close>, and a tab inside a line comes back as the two
  characters backslash and \<open>t\<close>.
\<close>

theorem cmd_execute_mangles_output:
  "cmd_execute (\<lambda>command. Inr (''backup done'' @ [CHR 0x0D, CHR 0x0A], ''''))
     [''pmrep'', ''backup'']
   = Inr [''ackup done'', []]
   \<and> py_split (''backup done'' @ [CHR 0x0D, CHR 0x0A]) [CHR 0x0D, CHR 0x0A]
       = Inr [''backup done'', []]
   \<and> cmd_execute (\<lambda>command. Inr ([CHR ''x'', CHR 0x09, CHR ''y''], '''')) [''pmrep'', ''backup'']
       = Inr [[CHR ''x'', CHR 0x5C, CHR ''t'', CHR ''y'']]"
  by (simp add: cmd_execute_def py_str_bytes_def repr_byte_def py_strip_chars_def py_split_def
      Let_def)




end
